theory Spec2Isabelle
  imports Main
begin

section \<open>Bytes, instants and errors\<close>

text \<open>
  A Go \<^verbatim>\<open>byte\<close> is eight bits, as a HOL \<^typ>\<open>char\<close> is; a \<^verbatim>\<open>[]byte\<close> is a list of
  them, and the nil slice is \<open>None\<close> where the code tells nil from empty.
  An instant (\<^verbatim>\<open>time.Time\<close>) is a natural number; \<open>0\<close> is the zero value of
  \<^verbatim>\<open>time.Time\<close>, the one \<^verbatim>\<open>IsZero\<close> answers true for.
\<close>

type_synonym byte = char
type_synonym time = nat

text \<open>
  The error values conn.go returns: \<^verbatim>\<open>io.EOF\<close>, \<^verbatim>\<open>os.ErrDeadlineExceeded\<close>,
  \<^verbatim>\<open>net.ErrClosed\<close>, and whatever the wrapped connection reports.
\<close>

datatype error = EOF | ErrDeadlineExceeded | ErrClosed | TransportError string

text \<open>
  \<^verbatim>\<open>errors.Is\<close> of the Go standard library, on sentinel values that wrap nothing:
  identity of the error value.
\<close>

definition errors_Is :: "error \<Rightarrow> error \<Rightarrow> bool" where
  "errors_Is err target = (err = target)"

section \<open>The deadline primitive\<close>

text \<open>
  Modelled from the spec: the package \<^verbatim>\<open>deaconn/deadline\<close> (the type
  \<^verbatim>\<open>deadline.Deadline\<close> with \<^verbatim>\<open>New\<close>, \<^verbatim>\<open>Set\<close> and \<^verbatim>\<open>Done\<close>) is imported by conn.go
  and is not among the sources. By the spec a deadline owns one absolute expiry
  instant or is unset; \<^verbatim>\<open>Set(t)\<close> with the zero value disables it, with a past
  instant makes the signal observable at once, with a future one no earlier than
  that instant. \<open>deadline_Done d now\<close> says whether the signal of \<open>d\<close> is
  observable at the instant \<open>now\<close>.
\<close>

record deadline =
  expiry :: time

definition deadline_New :: deadline where
  "deadline_New = \<lparr>expiry = 0\<rparr>"

definition deadline_Set :: "time \<Rightarrow> deadline \<Rightarrow> deadline" where
  "deadline_Set t d = d\<lparr>expiry := t\<rparr>"

definition deadline_Done :: "deadline \<Rightarrow> time \<Rightarrow> bool" where
  "deadline_Done d now = (expiry d \<noteq> 0 \<and> expiry d \<le> now)"

section \<open>The wrapped connection and the wrapper\<close>

text \<open>
  The wrapped \<^verbatim>\<open>net.Conn\<close> is an interface value, opaque to conn.go. The model
  keeps what conn.go can see of it: the results its successive \<^verbatim>\<open>Read\<close> calls
  will return (the bytes put in the buffer, so \<open>n\<close> is their length, and the
  error), the buffers handed to its \<^verbatim>\<open>Write\<close>, how often \<^verbatim>\<open>Close\<close> was called,
  and what \<^verbatim>\<open>Close\<close> answers. When \<open>read_results\<close> is empty the next
  \<^verbatim>\<open>Read\<close> of the wrapped connection blocks.
\<close>

record inner_conn =
  read_results :: "(byte list \<times> error option) list"
  write_calls :: "byte list list"
  close_calls :: nat
  close_result :: "error option"

text \<open>
  The channel \<^verbatim>\<open>rxData\<close> is unbuffered (\<^verbatim>\<open>make(chan []byte)\<close>): a receive can
  proceed when the pump is blocked in its send (\<open>Offered\<close>) or when the channel
  has been closed.
\<close>

datatype 'a chan = Idle | Offered 'a | ChanClosed

text \<open>
  \<^verbatim>\<open>type conn struct\<close>. The context and its cancel function are the flag
  \<open>ctx_done\<close>: \<^verbatim>\<open>ctx.Done()\<close> is closed exactly when it is set.
\<close>

record conn =
  inner :: inner_conn
  ctx_done :: bool
  rxData :: "byte list chan"
  rxDataPending :: "byte list"
  rxDeadline :: deadline
  txDeadline :: deadline

text \<open>
  The length of the buffer the pump reads into. A \<^verbatim>\<open>Read\<close> of the wrapped
  connection returns at most that many bytes (the contract of \<^verbatim>\<open>io.Reader\<close>);
  the pump itself never compares against it.
\<close>

definition readBufferSize :: nat where
  "readBufferSize = 5242880"

section \<open>Select statements and copy\<close>

text \<open>
  A Go \<^verbatim>\<open>select\<close> picks, among the communications that can proceed, one at
  random; it takes \<^verbatim>\<open>default\<close> only when none can; without \<^verbatim>\<open>default\<close> it
  blocks until one can. A case is a pair of its readiness and the result of its
  body; the functions return every result the statement may produce, and the empty
  list when it blocks.
\<close>

definition select_ready :: "(bool \<times> 'a) list \<Rightarrow> 'a list" where
  "select_ready cases = map snd (filter fst cases)"

definition select_default :: "(bool \<times> 'a) list \<Rightarrow> 'a \<Rightarrow> 'a list" where
  "select_default cases dflt =
     (if select_ready cases = [] then [dflt] else select_ready cases)"

definition select_blocking :: "(bool \<times> 'a) list \<Rightarrow> 'a list" where
  "select_blocking cases = select_ready cases"

text \<open>
  The builtin \<^verbatim>\<open>copy(dst, src)\<close>: it copies \<open>min (len dst) (len src)\<close> bytes to
  the front of \<open>dst\<close> and returns that number.
\<close>

definition copy_bytes :: "byte list \<Rightarrow> byte list \<Rightarrow> byte list \<times> nat" where
  "copy_bytes dst src =
     (let n = min (length dst) (length src) in (take n src @ drop n dst, n))"

section \<open>Read\<close>

text \<open>
  A result of \<^verbatim>\<open>Read\<close>: the connection after the call, the caller's buffer after
  the call, and the pair \<open>(n, err)\<close> returned.
\<close>

type_synonym read_result = "conn \<times> byte list option \<times> nat \<times> error option"

datatype read_step = Return read_result | Fallthrough

text \<open>The first \<^verbatim>\<open>select\<close> of \<^verbatim>\<open>Read\<close> (conn.go, lines 87 to 101).\<close>

definition Read_poll :: "conn \<Rightarrow> time \<Rightarrow> byte list \<Rightarrow> read_step list" where
  "Read_poll c now b =
     select_default
       [(ctx_done c, Return (c, Some b, 0, Some EOF)),
        (deadline_Done (rxDeadline c) now, Return (c, Some b, 0, Some ErrDeadlineExceeded))]
       (if length (rxDataPending c) > 0 then
          (let (b', n) = copy_bytes b (rxDataPending c)
           in Return (c\<lparr>rxDataPending := drop n (rxDataPending c)\<rparr>, Some b', n, None))
        else Fallthrough)"

text \<open>
  The body of the receive case of the second \<^verbatim>\<open>select\<close> (lines 111 to 123). The
  receive takes the chunk the pump offers, which frees the pump; on a closed
  channel it yields \<^verbatim>\<open>ok == false\<close> and the body returns \<^verbatim>\<open>io.EOF\<close>.
\<close>

definition Read_recv :: "conn \<Rightarrow> byte list \<Rightarrow> read_result" where
  "Read_recv c b =
     (case rxData c of
        Offered data \<Rightarrow>
          (let (b', n) = copy_bytes b data;
               c1 = c\<lparr>rxData := Idle\<rparr>
           in (if n < length data
               then c1\<lparr>rxDataPending := rxDataPending c1 @ drop n data\<rparr>
               else c1,
               Some b', n, None))
      | _ \<Rightarrow> (c, Some b, 0, Some EOF))"

text \<open>
  The second \<^verbatim>\<open>select\<close> of \<^verbatim>\<open>Read\<close> (lines 103 to 124). The empty list is a
  \<^verbatim>\<open>Read\<close> that stays blocked.
\<close>

definition Read_wait :: "conn \<Rightarrow> time \<Rightarrow> byte list \<Rightarrow> read_result list" where
  "Read_wait c now b =
     select_blocking
       [(ctx_done c, (c, Some b, 0, Some EOF)),
        (deadline_Done (rxDeadline c) now, (c, Some b, 0, Some ErrDeadlineExceeded)),
        (rxData c \<noteq> Idle, Read_recv c b)]"

text \<open>
  \<^verbatim>\<open>func (c *conn) Read(b []byte) (int, error)\<close>, with both selects looking at the
  same state. A \<^verbatim>\<open>Read\<close> that blocked in the second select and is woken later is
  \<open>Read_wait\<close> on the later state.
\<close>

definition Read :: "conn \<Rightarrow> time \<Rightarrow> byte list option \<Rightarrow> read_result list" where
  "Read c now bo =
     (case bo of
        None \<Rightarrow> [(c, None, 0, None)]
      | Some b \<Rightarrow>
          concat (map (\<lambda>s. case s of Return r \<Rightarrow> [r] | Fallthrough \<Rightarrow> Read_wait c now b)
                      (Read_poll c now b)))"

section \<open>Write\<close>

type_synonym write_result = "conn \<times> nat \<times> error option"

text \<open>
  \<^verbatim>\<open>func (c *conn) Write(b []byte) (n int, err error)\<close>. The goroutine hands the
  copy to the wrapped connection's \<^verbatim>\<open>Write\<close>; \<open>res\<close> is what that call has
  reported on \<^verbatim>\<open>txResultChan\<close> when the select looks (\<open>None\<close> while it is
  still in flight).
\<close>

definition Write :: "conn \<Rightarrow> time \<Rightarrow> byte list option \<Rightarrow> (nat \<times> error option) option
    \<Rightarrow> write_result list" where
  "Write c now bo res =
     (case bo of
        None \<Rightarrow> [(c, 0, None)]
      | Some b \<Rightarrow>
          (let copied = b;
               c1 = c\<lparr>inner := (inner c)\<lparr>write_calls := write_calls (inner c) @ [copied]\<rparr>\<rparr>
           in select_blocking
                [(ctx_done c1, (c1, 0, Some EOF)),
                 (deadline_Done (txDeadline c1) now, (c1, 0, Some ErrDeadlineExceeded)),
                 (res \<noteq> None, (case res of Some (n, err) \<Rightarrow> (c1, n, err)
                                 | None \<Rightarrow> (c1, 0, None)))]))"

section \<open>Close and the deadline setters\<close>

text \<open>\<^verbatim>\<open>func (c *conn) Close() error\<close>: the wrapped \<^verbatim>\<open>Close\<close>, then the deferred cancel.\<close>

definition Close :: "conn \<Rightarrow> conn \<times> error option" where
  "Close c =
     (let err = close_result (inner c);
          c1 = c\<lparr>inner := (inner c)\<lparr>close_calls := Suc (close_calls (inner c))\<rparr>\<rparr>
      in (c1\<lparr>ctx_done := True\<rparr>, err))"

definition SetReadDeadline :: "conn \<Rightarrow> time \<Rightarrow> conn \<times> error option" where
  "SetReadDeadline c t =
     (if ctx_done c then (c, Some ErrClosed)
      else (c\<lparr>rxDeadline := deadline_Set t (rxDeadline c)\<rparr>, None))"

definition SetWriteDeadline :: "conn \<Rightarrow> time \<Rightarrow> conn \<times> error option" where
  "SetWriteDeadline c t =
     (if ctx_done c then (c, Some ErrClosed)
      else (c\<lparr>txDeadline := deadline_Set t (txDeadline c)\<rparr>, None))"

definition SetDeadline :: "conn \<Rightarrow> time \<Rightarrow> conn \<times> error option" where
  "SetDeadline c t =
     (case SetReadDeadline c t of
        (c1, Some err) \<Rightarrow> (c1, Some err)
      | (c1, None) \<Rightarrow> SetWriteDeadline c1 t)"

section \<open>The reader pump\<close>

text \<open>
  \<^verbatim>\<open>continouslyReadIntoBuffer\<close> runs in its own goroutine. Its control points:
  at the \<^verbatim>\<open>select\<close> at the top of the loop; in the send of line 70, holding the
  error of the read just made; returned. The deferred calls run on return, last
  deferred first: \<^verbatim>\<open>c.Close()\<close>, then \<^verbatim>\<open>close(c.rxData)\<close>.
\<close>

datatype pump = AtSelect | Sending "error option" | Returned

definition pump_return :: "conn \<Rightarrow> conn \<times> pump" where
  "pump_return c = (let (c1, err) = Close c in (c1\<lparr>rxData := ChanClosed\<rparr>, Returned))"

text \<open>
  One step of the pump, \<open>None\<close> where it cannot move: blocked in the read of the
  wrapped connection, blocked in the send until a \<^verbatim>\<open>Read\<close> receives, or returned.
\<close>

fun pump_step :: "conn \<times> pump \<Rightarrow> (conn \<times> pump) option" where
  "pump_step (c, AtSelect) =
     (if ctx_done c then Some (pump_return c)
      else (case read_results (inner c) of
              [] \<Rightarrow> None
            | (data, err) # rest \<Rightarrow>
                (let c1 = c\<lparr>inner := (inner c)\<lparr>read_results := rest\<rparr>\<rparr>;
                     n = length data
                 in if n > 0 then Some (c1\<lparr>rxData := Offered (take n data)\<rparr>, Sending err)
                    else if err \<noteq> None then Some (pump_return c1)
                    else Some (c1, AtSelect))))"
| "pump_step (c, Sending err) =
     (case rxData c of
        Offered data \<Rightarrow> None
      | _ \<Rightarrow> (if err \<noteq> None then Some (pump_return c) else Some (c, AtSelect)))"
| "pump_step (c, Returned) = None"

text \<open>
  \<^verbatim>\<open>WithDeadlines\<close>: the wrapper over a wrapped connection, and the pump started.
\<close>

definition WithDeadlines :: "inner_conn \<Rightarrow> conn \<times> pump" where
  "WithDeadlines i =
     (\<lparr>inner = i, ctx_done = False, rxData = Idle, rxDataPending = [],
       rxDeadline = deadline_New, txDeadline = deadline_New\<rparr>, AtSelect)"

section \<open>Executions\<close>

text \<open>
  The bytes a \<^verbatim>\<open>Read\<close> hands to its caller: the first \<open>n\<close> bytes of the buffer.
\<close>

definition delivered :: "read_result \<Rightarrow> byte list" where
  "delivered r = (case r of (c, bo, n, err) \<Rightarrow> (case bo of None \<Rightarrow> [] | Some b \<Rightarrow> take n b))"

text \<open>
  The pump runs beside the caller, so an execution is an interleaving: a list of
  actions, each a step of the pump or a call of the caller. A call carries its
  arguments, the instant at which its select looks, and the index of the result
  the select picks among those it may produce. \<open>ResumeRead\<close> is a \<^verbatim>\<open>Read\<close>
  that went through its first select earlier and is woken in its second one; it
  saw the pending buffer empty then, and conn.go has one reader at a time, so the
  pending buffer is still empty. \<open>CallWrite\<close> carries what the wrapped
  \<^verbatim>\<open>Write\<close> has reported by then.
\<close>

datatype action =
    Pump
  | CallRead time "byte list option" nat
  | ResumeRead time "byte list" nat
  | CallWrite time "byte list option" "(nat \<times> error option) option" nat
  | CallClose
  | CallSetDeadline time
  | CallSetReadDeadline time
  | CallSetWriteDeadline time

definition pick :: "'a list \<Rightarrow> nat \<Rightarrow> 'a option" where
  "pick xs k = (if k < length xs then Some (xs ! k) else None)"

text \<open>
  One action: the state after it and the bytes it delivered to the caller;
  \<open>None\<close> when the action cannot happen (the pump or the call is blocked, or
  the select has no such result).
\<close>

fun act :: "conn \<times> pump \<Rightarrow> action \<Rightarrow> ((conn \<times> pump) \<times> byte list) option" where
  "act (c, p) Pump = map_option (\<lambda>s. (s, [])) (pump_step (c, p))"
| "act (c, p) (CallRead now bo k) =
     map_option (\<lambda>r. ((fst r, p), delivered r)) (pick (Read c now bo) k)"
| "act (c, p) (ResumeRead now b k) =
     (if rxDataPending c \<noteq> [] then None
      else map_option (\<lambda>r. ((fst r, p), delivered r)) (pick (Read_wait c now b) k))"
| "act (c, p) (CallWrite now bo res k) =
     map_option (\<lambda>r. ((fst r, p), [])) (pick (Write c now bo res) k)"
| "act (c, p) CallClose = Some ((fst (Close c), p), [])"
| "act (c, p) (CallSetDeadline t) = Some ((fst (SetDeadline c t), p), [])"
| "act (c, p) (CallSetReadDeadline t) = Some ((fst (SetReadDeadline c t), p), [])"
| "act (c, p) (CallSetWriteDeadline t) = Some ((fst (SetWriteDeadline c t), p), [])"

fun run :: "conn \<times> pump \<Rightarrow> action list \<Rightarrow> ((conn \<times> pump) \<times> byte list) option" where
  "run s [] = Some (s, [])"
| "run s (a # as) =
     (case act s a of
        None \<Rightarrow> None
      | Some (s1, out1) \<Rightarrow>
          (case run s1 as of
             None \<Rightarrow> None
           | Some (s2, out2) \<Rightarrow> Some (s2, out1 @ out2)))"

text \<open>
  The bytes of the stream no \<^verbatim>\<open>Read\<close> has returned yet: the pending buffer, the
  chunk the pump is offering, and what the wrapped connection has still to
  produce, in this order.
\<close>

definition offered :: "conn \<Rightarrow> byte list" where
  "offered c = (case rxData c of Offered data \<Rightarrow> data | _ \<Rightarrow> [])"

definition undelivered :: "conn \<Rightarrow> byte list" where
  "undelivered c = rxDataPending c @ offered c @ concat (map fst (read_results (inner c)))"

text \<open>
  How the channel stands at each control point of the pump: nothing is offered
  while the pump is at its select, an offered chunk is never empty, and the
  channel is closed once the pump has returned.
\<close>

fun sys_inv :: "conn \<times> pump \<Rightarrow> bool" where
  "sys_inv (c, AtSelect) = (rxData c = Idle)"
| "sys_inv (c, Sending err) =
     (case rxData c of Idle \<Rightarrow> True | Offered data \<Rightarrow> data \<noteq> [] | ChanClosed \<Rightarrow> False)"
| "sys_inv (c, Returned) = (rxData c = ChanClosed)"

section \<open>Example states\<close>

text \<open>
  A wrapped connection whose one read yields the eleven bytes of \<open>hello world\<close>
  together with \<^verbatim>\<open>io.EOF\<close>, and the wrapper over it as \<^verbatim>\<open>WithDeadlines\<close>
  returns it.
\<close>

definition hello_inner :: inner_conn where
  "hello_inner =
     \<lparr>read_results = [(''hello world'', Some EOF)], write_calls = [], close_calls = 0,
      close_result = None\<rparr>"

definition hello_conn :: conn where
  "hello_conn = fst (WithDeadlines hello_inner)"

text \<open>
  The same eleven bytes from a read that reports no error, followed by a read that
  reports \<^verbatim>\<open>io.EOF\<close> with no bytes: a peer that writes and then closes.
\<close>

definition hello_then_eof_inner :: inner_conn where
  "hello_then_eof_inner =
     \<lparr>read_results = [(''hello world'', None), ([], Some EOF)], write_calls = [], close_calls = 0,
      close_result = None\<rparr>"

text \<open>The wrapper once the pump has read and offers the chunk.\<close>

definition hello_offered :: conn where
  "hello_offered =
     hello_conn\<lparr>inner := (inner hello_conn)\<lparr>read_results := []\<rparr>, rxData := Offered ''hello world''\<rparr>"

text \<open>
  A wrapped connection whose one read fails with no bytes, and the wrapper over it.
\<close>

definition reset_inner :: inner_conn where
  "reset_inner =
     \<lparr>read_results = [([], Some (TransportError ''connection reset''))], write_calls = [],
      close_calls = 0, close_result = None\<rparr>"

definition reset_conn :: conn where
  "reset_conn = fst (WithDeadlines reset_inner)"

section \<open>Properties of single steps\<close>

lemmas read_defs = Read_def Read_poll_def Read_wait_def Read_recv_def select_default_def
  select_blocking_def select_ready_def copy_bytes_def

lemmas write_defs = Write_def select_blocking_def select_ready_def

lemmas ex_defs = hello_conn_def hello_inner_def WithDeadlines_def deadline_New_def deadline_Done_def
  pick_def delivered_def pump_return_def Close_def undelivered_def offered_def

lemmas ex2_defs = reset_conn_def reset_inner_def

lemma Read_held:
  "r \<in> set (Read c now bo) \<Longrightarrow>
     delivered r @ rxDataPending (fst r) @ offered (fst r) = rxDataPending c @ offered c"
  by (auto simp: read_defs delivered_def offered_def Let_def min_def
      split: option.splits if_splits chan.splits)

lemma Read_wait_held:
  "r \<in> set (Read_wait c now b) \<Longrightarrow> rxDataPending c = [] \<Longrightarrow>
     delivered r @ rxDataPending (fst r) @ offered (fst r) = rxDataPending c @ offered c"
  by (auto simp: read_defs delivered_def offered_def Let_def min_def
      split: option.splits if_splits chan.splits)

lemma Read_inner:
  "r \<in> set (Read c now bo) \<Longrightarrow> inner (fst r) = inner c"
  by (auto simp: read_defs Let_def split: option.splits if_splits chan.splits)

lemma Read_wait_inner:
  "r \<in> set (Read_wait c now b) \<Longrightarrow> inner (fst r) = inner c"
  by (auto simp: read_defs Let_def split: option.splits if_splits chan.splits)

lemma Read_undelivered:
  "r \<in> set (Read c now bo) \<Longrightarrow> delivered r @ undelivered (fst r) = undelivered c"
  using Read_held [of r c now bo] Read_inner [of r c now bo] by (simp add: undelivered_def)

lemma Read_wait_undelivered:
  "r \<in> set (Read_wait c now b) \<Longrightarrow> rxDataPending c = [] \<Longrightarrow>
     delivered r @ undelivered (fst r) = undelivered c"
  using Read_wait_held [of r c now b] Read_wait_inner [of r c now b] by (simp add: undelivered_def)

lemma Read_rxData:
  "r \<in> set (Read c now bo) \<Longrightarrow>
     rxData (fst r) = rxData c \<or> (\<exists>data. rxData c = Offered data \<and> rxData (fst r) = Idle)"
  by (auto simp: read_defs Let_def split: option.splits if_splits chan.splits)

lemma Read_wait_rxData:
  "r \<in> set (Read_wait c now b) \<Longrightarrow>
     rxData (fst r) = rxData c \<or> (\<exists>data. rxData c = Offered data \<and> rxData (fst r) = Idle)"
  by (auto simp: read_defs Let_def split: option.splits if_splits chan.splits)

lemma sys_inv_rxData:
  "sys_inv (c, p) \<Longrightarrow>
     rxData c' = rxData c \<or> (\<exists>data. rxData c = Offered data \<and> rxData c' = Idle) \<Longrightarrow>
     sys_inv (c', p)"
  by (cases p) (auto split: chan.splits)

lemma pick_Some: "pick xs k = Some x \<Longrightarrow> x \<in> set xs"
  by (auto simp: pick_def split: if_splits)

lemma Write_frame:
  "r \<in> set (Write c now bo res) \<Longrightarrow>
     rxData (fst r) = rxData c \<and> rxDataPending (fst r) = rxDataPending c \<and>
     read_results (inner (fst r)) = read_results (inner c) \<and> ctx_done (fst r) = ctx_done c"
  by (auto simp: Write_def select_blocking_def select_ready_def Let_def
      split: option.splits if_splits)

lemma Close_frame:
  "rxData (fst (Close c)) = rxData c \<and> rxDataPending (fst (Close c)) = rxDataPending c \<and>
   read_results (inner (fst (Close c))) = read_results (inner c) \<and> ctx_done (fst (Close c))"
  by (simp add: Close_def Let_def)

lemma SetReadDeadline_frame:
  "rxData (fst (SetReadDeadline c t)) = rxData c \<and>
   rxDataPending (fst (SetReadDeadline c t)) = rxDataPending c \<and>
   inner (fst (SetReadDeadline c t)) = inner c \<and>
   ctx_done (fst (SetReadDeadline c t)) = ctx_done c"
  by (simp add: SetReadDeadline_def)

lemma SetWriteDeadline_frame:
  "rxData (fst (SetWriteDeadline c t)) = rxData c \<and>
   rxDataPending (fst (SetWriteDeadline c t)) = rxDataPending c \<and>
   inner (fst (SetWriteDeadline c t)) = inner c \<and>
   ctx_done (fst (SetWriteDeadline c t)) = ctx_done c"
  by (simp add: SetWriteDeadline_def)

lemma SetDeadline_frame:
  "rxData (fst (SetDeadline c t)) = rxData c \<and>
   rxDataPending (fst (SetDeadline c t)) = rxDataPending c \<and>
   inner (fst (SetDeadline c t)) = inner c \<and>
   ctx_done (fst (SetDeadline c t)) = ctx_done c"
  by (simp add: SetDeadline_def SetReadDeadline_def SetWriteDeadline_def)

lemma pump_step_inv:
  "pump_step (c, p) = Some (c', p') \<Longrightarrow> sys_inv (c, p) \<Longrightarrow>
     sys_inv (c', p') \<and> undelivered c' = undelivered c"
  by (cases p)
     (auto simp: pump_return_def Close_def Let_def undelivered_def offered_def
       split: if_splits list.splits chan.splits)

lemma act_inv:
  "act (c, p) a = Some ((c', p'), out) \<Longrightarrow> sys_inv (c, p) \<Longrightarrow>
     sys_inv (c', p') \<and> out @ undelivered c' = undelivered c"
proof (cases a)
  case Pump
  assume "act (c, p) a = Some ((c', p'), out)" "sys_inv (c, p)"
  with Pump show ?thesis using pump_step_inv [of c p c' p'] by auto
next
  case (CallRead now bo k)
  assume h: "act (c, p) a = Some ((c', p'), out)" "sys_inv (c, p)"
  with CallRead obtain r where r: "r \<in> set (Read c now bo)" "c' = fst r" "p' = p" "out = delivered r"
    by (auto dest: pick_Some)
  show ?thesis
    using r h(2) Read_undelivered [OF r(1)] sys_inv_rxData [OF h(2) Read_rxData [OF r(1)]] by simp
next
  case (ResumeRead now b k)
  assume h: "act (c, p) a = Some ((c', p'), out)" "sys_inv (c, p)"
  with ResumeRead obtain r where r: "r \<in> set (Read_wait c now b)" "c' = fst r" "p' = p"
      "out = delivered r" "rxDataPending c = []"
    by (auto dest: pick_Some split: if_splits)
  show ?thesis
    using r h(2) Read_wait_undelivered [OF r(1) r(5)]
      sys_inv_rxData [OF h(2) Read_wait_rxData [OF r(1)]] by simp
next
  case (CallWrite now bo res k)
  assume h: "act (c, p) a = Some ((c', p'), out)" "sys_inv (c, p)"
  with CallWrite obtain r where r: "r \<in> set (Write c now bo res)" "c' = fst r" "p' = p" "out = []"
    by (auto dest: pick_Some)
  show ?thesis
    using r h(2) Write_frame [OF r(1)] sys_inv_rxData [of c p c']
    by (simp add: undelivered_def offered_def)
next
  case CallClose
  assume h: "act (c, p) a = Some ((c', p'), out)" "sys_inv (c, p)"
  with CallClose show ?thesis
    using Close_frame [of c] sys_inv_rxData [of c p c'] by (auto simp: undelivered_def offered_def)
next
  case (CallSetDeadline t)
  assume h: "act (c, p) a = Some ((c', p'), out)" "sys_inv (c, p)"
  with CallSetDeadline show ?thesis
    using SetDeadline_frame [of c t] sys_inv_rxData [of c p c']
    by (auto simp: undelivered_def offered_def)
next
  case (CallSetReadDeadline t)
  assume h: "act (c, p) a = Some ((c', p'), out)" "sys_inv (c, p)"
  with CallSetReadDeadline show ?thesis
    using SetReadDeadline_frame [of c t] sys_inv_rxData [of c p c']
    by (auto simp: undelivered_def offered_def)
next
  case (CallSetWriteDeadline t)
  assume h: "act (c, p) a = Some ((c', p'), out)" "sys_inv (c, p)"
  with CallSetWriteDeadline show ?thesis
    using SetWriteDeadline_frame [of c t] sys_inv_rxData [of c p c']
    by (auto simp: undelivered_def offered_def)
qed

lemma run_inv:
  "run s acts = Some (s', out) \<Longrightarrow> sys_inv s \<Longrightarrow>
     sys_inv s' \<and> out @ undelivered (fst s') = undelivered (fst s)"
proof (induction acts arbitrary: s out)
  case Nil
  then show ?case by simp
next
  case (Cons a acts)
  from Cons.prems(1) obtain s1 out1 out2 where
    a: "act s a = Some (s1, out1)" and r: "run s1 acts = Some (s', out2)" and o: "out = out1 @ out2"
    by (auto split: option.splits)
  obtain c p where s: "s = (c, p)" by (cases s)
  obtain c1 p1 where s1: "s1 = (c1, p1)" by (cases s1)
  from act_inv [of c p a c1 p1 out1] a s s1 Cons.prems(2)
  have i1: "sys_inv s1" and u1: "out1 @ undelivered (fst s1) = undelivered (fst s)" by auto
  from Cons.IH [OF r i1] have "sys_inv s'" and "out2 @ undelivered (fst s') = undelivered (fst s1)"
    by auto
  with u1 o show ?case by simp
qed


lemma Read_pending:
  "\<not> ctx_done c \<Longrightarrow> \<not> deadline_Done (rxDeadline c) now \<Longrightarrow> rxDataPending c \<noteq> [] \<Longrightarrow>
     Read c now (Some b) =
       [(c\<lparr>rxDataPending := drop (min (length b) (length (rxDataPending c))) (rxDataPending c)\<rparr>,
         Some (take (min (length b) (length (rxDataPending c))) (rxDataPending c)
               @ drop (min (length b) (length (rxDataPending c))) b),
         min (length b) (length (rxDataPending c)), None)]"
  by (simp add: read_defs Let_def)

lemma Read_offered:
  "\<not> ctx_done c \<Longrightarrow> \<not> deadline_Done (rxDeadline c) now \<Longrightarrow> rxDataPending c = [] \<Longrightarrow>
   rxData c = Offered data \<Longrightarrow>
     Read c now (Some b) =
       [(c\<lparr>rxData := Idle, rxDataPending := drop (min (length b) (length data)) data\<rparr>,
         Some (take (min (length b) (length data)) data @ drop (min (length b) (length data)) b),
         min (length b) (length data), None)]"
  by (auto simp: read_defs Let_def min_def)

lemma run_reads_pending:
  "\<not> ctx_done c \<Longrightarrow> \<forall>(now, b) \<in> set tbs. b \<noteq> [] \<and> \<not> deadline_Done (rxDeadline c) now \<Longrightarrow>
   sum_list (map (\<lambda>(now, b). length b) tbs) \<le> length (rxDataPending c) \<Longrightarrow>
     run (c, p) (map (\<lambda>(now, b). CallRead now (Some b) 0) tbs) =
       Some ((c\<lparr>rxDataPending := drop (sum_list (map (\<lambda>(now, b). length b) tbs)) (rxDataPending c)\<rparr>, p),
             take (sum_list (map (\<lambda>(now, b). length b) tbs)) (rxDataPending c))"
proof (induction tbs arbitrary: c)
  case Nil
  then show ?case by simp
next
  case (Cons tb tbs)
  obtain now b where tb: "tb = (now, b)" by (cases tb)
  let ?P = "rxDataPending c"
  let ?k = "sum_list (map (\<lambda>(now, b). length b) tbs)"
  from Cons.prems tb have b: "b \<noteq> []" "\<not> deadline_Done (rxDeadline c) now"
    and len: "length b + ?k \<le> length ?P" by auto
  then have ne: "?P \<noteq> []" by (cases b) auto
  have m: "min (length b) (length ?P) = length b" using len by simp
  let ?c1 = "c\<lparr>rxDataPending := drop (length b) ?P\<rparr>"
  have rd: "Read c now (Some b) = [(?c1, Some (take (length b) ?P), length b, None)]"
    using Read_pending [OF Cons.prems(1) b(2) ne, of b] m by simp
  have a: "act (c, p) (CallRead now (Some b) 0) = Some ((?c1, p), take (length b) ?P)"
    using rd len by (simp add: pick_def delivered_def)
  have ih: "run (?c1, p) (map (\<lambda>(now, b). CallRead now (Some b) 0) tbs) =
      Some ((?c1\<lparr>rxDataPending := drop ?k (rxDataPending ?c1)\<rparr>, p), take ?k (rxDataPending ?c1))"
    using Cons.prems len by (intro Cons.IH) auto
  have t: "take (length b) ?P @ take ?k (drop (length b) ?P) = take (length b + ?k) ?P"
    by (simp add: take_add)
  show ?case unfolding tb using a ih t by (simp add: add.commute del: act.simps)
qed

lemma run_reads_offered:
  assumes "\<not> ctx_done c" "rxDataPending c = []" "rxData c = Offered data" "tbs \<noteq> []"
    "\<forall>(now, b) \<in> set tbs. b \<noteq> [] \<and> \<not> deadline_Done (rxDeadline c) now"
    "sum_list (map (\<lambda>(now, b). length b) tbs) \<le> length data"
  shows "run (c, p) (map (\<lambda>(now, b). CallRead now (Some b) 0) tbs) =
       Some ((c\<lparr>rxData := Idle,
                 rxDataPending := drop (sum_list (map (\<lambda>(now, b). length b) tbs)) data\<rparr>, p),
             take (sum_list (map (\<lambda>(now, b). length b) tbs)) data)"
proof -
  from assms(4) obtain now b rest where tbs: "tbs = (now, b) # rest" by (cases tbs) auto
  let ?k = "sum_list (map (\<lambda>(now, b). length b) rest)"
  let ?c1 = "c\<lparr>rxData := Idle, rxDataPending := drop (length b) data\<rparr>"
  from assms(5,6) tbs have b: "\<not> deadline_Done (rxDeadline c) now"
    and len: "length b + ?k \<le> length data" by auto
  then have m: "min (length b) (length data) = length b" by simp
  have rd: "Read c now (Some b) = [(?c1, Some (take (length b) data), length b, None)]"
    using Read_offered [OF assms(1) b assms(2,3), of b] m by simp
  have a: "act (c, p) (CallRead now (Some b) 0) = Some ((?c1, p), take (length b) data)"
    using rd len by (simp add: pick_def delivered_def)
  have r: "run (?c1, p) (map (\<lambda>(now, b). CallRead now (Some b) 0) rest) =
      Some ((?c1\<lparr>rxDataPending := drop ?k (rxDataPending ?c1)\<rparr>, p), take ?k (rxDataPending ?c1))"
    using assms(1,5) len tbs by (intro run_reads_pending) auto
  have t: "take (length b) data @ take ?k (drop (length b) data) = take (length b + ?k) data"
    by (simp add: take_add)
  show ?thesis unfolding tbs using a r t by (simp add: add.commute del: act.simps)
qed

lemma Read_closed:
  "ctx_done c \<Longrightarrow> r \<in> set (Read c now (Some b)) \<Longrightarrow>
     r = (c, Some b, 0, Some EOF) \<or>
     (deadline_Done (rxDeadline c) now \<and> r = (c, Some b, 0, Some ErrDeadlineExceeded))"
  by (auto simp: Read_def Read_poll_def select_default_def select_ready_def split: if_splits)

lemma Read_closed_returns: "ctx_done c \<Longrightarrow> Read c now (Some b) \<noteq> []"
  by (simp add: Read_def Read_poll_def select_default_def select_ready_def)

lemma Read_closed_results:
  "ctx_done c \<Longrightarrow>
     Read c now (Some b) =
       (if deadline_Done (rxDeadline c) now
        then [(c, Some b, 0, Some EOF), (c, Some b, 0, Some ErrDeadlineExceeded)]
        else [(c, Some b, 0, Some EOF)])"
  by (simp add: Read_def Read_poll_def select_default_def select_ready_def)

lemma Read_wait_closed:
  "ctx_done c \<Longrightarrow> \<forall>data. rxData c \<noteq> Offered data \<Longrightarrow> r \<in> set (Read_wait c now b) \<Longrightarrow>
     r = (c, Some b, 0, Some EOF) \<or>
     (deadline_Done (rxDeadline c) now \<and> r = (c, Some b, 0, Some ErrDeadlineExceeded))"
  by (auto simp: Read_wait_def Read_recv_def select_blocking_def select_ready_def
      split: if_splits chan.splits)

lemma Read_wait_closed_returns: "ctx_done c \<Longrightarrow> Read_wait c now b \<noteq> []"
  by (simp add: Read_wait_def select_blocking_def select_ready_def)

lemma Read_errors:
  "r \<in> set (Read c now bo) \<Longrightarrow>
     snd (snd (snd r)) \<in> {None, Some EOF, Some ErrDeadlineExceeded}"
  by (auto simp: read_defs Let_def split: option.splits if_splits chan.splits)

lemma Read_wait_errors:
  "r \<in> set (Read_wait c now b) \<Longrightarrow>
     snd (snd (snd r)) \<in> {None, Some EOF, Some ErrDeadlineExceeded}"
  by (auto simp: read_defs Let_def split: option.splits if_splits chan.splits)

lemma pump_return_closed:
  "pump_return c = (c', p') \<Longrightarrow>
     p' = Returned \<and> ctx_done c' \<and> rxData c' = ChanClosed \<and>
     close_calls (inner c') = Suc (close_calls (inner c)) \<and>
     rxDataPending c' = rxDataPending c \<and> pump_step (c', p') = None"
  by (auto simp: pump_return_def Close_def Let_def)

lemma pump_step_frame:
  "pump_step (c, p) = Some (c', p') \<Longrightarrow>
     rxDataPending c' = rxDataPending c \<and> (ctx_done c \<longrightarrow> ctx_done c')"
  by (cases p)
     (auto simp: pump_return_def Close_def Let_def split: if_splits list.splits chan.splits)

lemma act_closed:
  assumes "ctx_done c" "rxDataPending c \<noteq> []" "act (c, p) a = Some ((c', p'), out)"
  shows "out = [] \<and> ctx_done c' \<and> rxDataPending c' = rxDataPending c"
proof (cases a)
  case Pump
  with assms show ?thesis using pump_step_frame [of c p c' p'] by auto
next
  case (CallRead now bo k)
  with assms(3) obtain r where r: "r \<in> set (Read c now bo)" "c' = fst r" "out = delivered r"
    by (auto dest: pick_Some)
  show ?thesis
  proof (cases bo)
    case None
    with r assms show ?thesis by (simp add: Read_def delivered_def)
  next
    case (Some b)
    with r(1) Read_closed [OF assms(1), of r now b]
    have "r = (c, Some b, 0, Some EOF) \<or> r = (c, Some b, 0, Some ErrDeadlineExceeded)" by auto
    with r assms show ?thesis by (auto simp: delivered_def)
  qed
next
  case (ResumeRead now b k)
  with assms show ?thesis by simp
next
  case (CallWrite now bo res k)
  with assms(3) obtain r where r: "r \<in> set (Write c now bo res)" "c' = fst r" "out = []"
    by (auto dest: pick_Some)
  with assms Write_frame [OF r(1)] show ?thesis by simp
next
  case CallClose
  with assms Close_frame [of c] show ?thesis by auto
next
  case (CallSetDeadline t)
  with assms SetDeadline_frame [of c t] show ?thesis by auto
next
  case (CallSetReadDeadline t)
  with assms SetReadDeadline_frame [of c t] show ?thesis by auto
next
  case (CallSetWriteDeadline t)
  with assms SetWriteDeadline_frame [of c t] show ?thesis by auto
qed

lemma run_closed:
  "ctx_done c \<Longrightarrow> rxDataPending c \<noteq> [] \<Longrightarrow> run (c, p) acts = Some ((c', p'), out) \<Longrightarrow>
     out = [] \<and> ctx_done c' \<and> rxDataPending c' = rxDataPending c"
proof (induction acts arbitrary: c p out)
  case Nil
  then show ?case by simp
next
  case (Cons a acts)
  from Cons.prems(3) obtain c1 p1 out1 out2 where
    a: "act (c, p) a = Some ((c1, p1), out1)" and
    r: "run (c1, p1) acts = Some ((c', p'), out2)" and o: "out = out1 @ out2"
    by (auto split: option.splits)
  from act_closed [OF Cons.prems(1,2) a]
  have 1: "out1 = []" "ctx_done c1" "rxDataPending c1 = rxDataPending c" by auto
  from Cons.IH [OF 1(2) _ r] 1(3) Cons.prems(2)
  have "out2 = [] \<and> ctx_done c' \<and> rxDataPending c' = rxDataPending c1" by simp
  with 1 o show ?case by simp
qed

lemma pump_publishes:
  "pump_step (c, p) = Some (c', p') \<Longrightarrow> rxData c' = Offered data \<Longrightarrow> rxData c \<noteq> Offered data \<Longrightarrow>
     data \<noteq> [] \<and> (\<exists>err rest. read_results (inner c) = (data, err) # rest)"
  by (cases p)
     (auto simp: pump_return_def Close_def Let_def split: if_splits list.splits chan.splits)

lemma sys_inv_Offered: "sys_inv (c, p) \<Longrightarrow> rxData c = Offered data \<Longrightarrow> data \<noteq> []"
  by (cases p) auto

lemma Read_recv_positive:
  "rxData c = Offered data \<Longrightarrow> data \<noteq> [] \<Longrightarrow> b \<noteq> [] \<Longrightarrow>
     0 < fst (snd (snd (Read_recv c b))) \<and> snd (snd (snd (Read_recv c b))) = None"
  by (cases b; cases data) (auto simp: Read_recv_def copy_bytes_def Let_def)

lemma Read_recv_never_zero_nil:
  "sys_inv (c, p) \<Longrightarrow> b \<noteq> [] \<Longrightarrow> rxData c \<noteq> Idle \<Longrightarrow> snd (snd (Read_recv c b)) \<noteq> (0, None)"
proof (cases "rxData c")
  case (Offered data)
  assume "sys_inv (c, p)" "b \<noteq> []"
  with Offered Read_recv_positive [of c data b] sys_inv_Offered [of c p data]
  show ?thesis by (cases "Read_recv c b") auto
qed (simp_all add: Read_recv_def)

lemma Read_wait_never_zero_nil:
  assumes "sys_inv (c, p)" "b \<noteq> []" "r \<in> set (Read_wait c now b)"
  shows "snd (snd r) \<noteq> (0, None)"
proof -
  from assms(3) have "r = (c, Some b, 0, Some EOF) \<or> r = (c, Some b, 0, Some ErrDeadlineExceeded) \<or>
      (rxData c \<noteq> Idle \<and> r = Read_recv c b)"
    by (auto simp: Read_wait_def select_blocking_def select_ready_def split: if_splits)
  with Read_recv_never_zero_nil [OF assms(1,2)] show ?thesis by auto
qed

lemma Read_call_never_zero_nil:
  assumes "sys_inv (c, p)" "b \<noteq> []" "r \<in> set (Read c now (Some b))"
  shows "snd (snd r) \<noteq> (0, None)"
proof -
  from assms(3) have "r = (c, Some b, 0, Some EOF) \<or> r = (c, Some b, 0, Some ErrDeadlineExceeded) \<or>
      (rxDataPending c \<noteq> [] \<and> fst (snd (snd r)) = min (length b) (length (rxDataPending c))) \<or>
      r \<in> set (Read_wait c now b)"
    by (auto simp: Read_def Read_poll_def select_default_def select_ready_def copy_bytes_def Let_def
        split: if_splits)
  moreover have "rxDataPending c \<noteq> [] \<Longrightarrow> 0 < min (length b) (length (rxDataPending c))"
    using assms(2) by simp
  ultimately show ?thesis
    using Read_wait_never_zero_nil [OF assms(1,2), of r now] by (cases r) auto
qed

lemma Read_never_zero_nil:
  "sys_inv (c, p) \<Longrightarrow> b \<noteq> [] \<Longrightarrow> r \<in> set (Read c now (Some b)) \<union> set (Read_wait c now b) \<Longrightarrow>
     snd (snd r) \<noteq> (0, None)"
  using Read_call_never_zero_nil [of c p b r now] Read_wait_never_zero_nil [of c p b r now] by blast

section \<open>Delivery in order\<close>

text \<open>
  What \<^verbatim>\<open>Read\<close> does keep. In every execution from \<^verbatim>\<open>WithDeadlines\<close> the bytes
  the Reads have returned so far, followed by the bytes still held (pending
  buffer, offered chunk, rest of the stream), are the byte sequence of the stream:
  nothing is returned twice or out of order. While neither the cancellation
  signal nor the read-deadline signal is set, a Read that receives a chunk larger
  than its buffer returns the first len(buffer) bytes and stashes the remainder,
  and consecutive Reads with non-empty buffers return contiguous slices, in
  order, of the chunk they find offered and of the bytes they find pending.
\<close>

lemma reads_in_order:
  "(run (WithDeadlines i) acts = Some ((c, p), out) \<longrightarrow>
      out @ undelivered c = concat (map fst (read_results i))) \<and>
   (\<not> ctx_done c \<and> \<not> deadline_Done (rxDeadline c) now \<and> rxDataPending c = [] \<and>
    rxData c = Offered data \<and> length b < length data \<longrightarrow>
      Read c now (Some b) =
        [(c\<lparr>rxData := Idle, rxDataPending := drop (length b) data\<rparr>,
          Some (take (length b) data), length b, None)]) \<and>
   (\<not> ctx_done c \<and> (\<forall>(now, b) \<in> set tbs. b \<noteq> [] \<and> \<not> deadline_Done (rxDeadline c) now) \<and>
    k = sum_list (map (\<lambda>(now, b). length b) tbs) \<longrightarrow>
      (rxDataPending c = [] \<and> rxData c = Offered data \<and> tbs \<noteq> [] \<and> k \<le> length data \<longrightarrow>
         run (c, p) (map (\<lambda>(now, b). CallRead now (Some b) 0) tbs) =
           Some ((c\<lparr>rxData := Idle, rxDataPending := drop k data\<rparr>, p), take k data)) \<and>
      (k \<le> length (rxDataPending c) \<longrightarrow>
         run (c, p) (map (\<lambda>(now, b). CallRead now (Some b) 0) tbs) =
           Some ((c\<lparr>rxDataPending := drop k (rxDataPending c)\<rparr>, p), take k (rxDataPending c))))"
proof (intro conjI impI)
  assume r: "run (WithDeadlines i) acts = Some ((c, p), out)"
  have "sys_inv (WithDeadlines i)" by (simp add: WithDeadlines_def)
  from run_inv [OF r this] show "out @ undelivered c = concat (map fst (read_results i))"
    by (simp add: WithDeadlines_def undelivered_def offered_def)
next
  assume "\<not> ctx_done c \<and> \<not> deadline_Done (rxDeadline c) now \<and> rxDataPending c = [] \<and>
    rxData c = Offered data \<and> length b < length data"
  then show "Read c now (Some b) =
        [(c\<lparr>rxData := Idle, rxDataPending := drop (length b) data\<rparr>,
          Some (take (length b) data), length b, None)]"
    using Read_offered [of c now data b] by simp
next
  assume h: "\<not> ctx_done c \<and> (\<forall>(now, b) \<in> set tbs. b \<noteq> [] \<and> \<not> deadline_Done (rxDeadline c) now) \<and>
    k = sum_list (map (\<lambda>(now, b). length b) tbs)"
    and o: "rxDataPending c = [] \<and> rxData c = Offered data \<and> tbs \<noteq> [] \<and> k \<le> length data"
  then show "run (c, p) (map (\<lambda>(now, b). CallRead now (Some b) 0) tbs) =
           Some ((c\<lparr>rxData := Idle, rxDataPending := drop k data\<rparr>, p), take k data)"
    using run_reads_offered [of c data tbs p] by simp
next
  assume h: "\<not> ctx_done c \<and> (\<forall>(now, b) \<in> set tbs. b \<noteq> [] \<and> \<not> deadline_Done (rxDeadline c) now) \<and>
    k = sum_list (map (\<lambda>(now, b). length b) tbs)"
    and o: "k \<le> length (rxDataPending c)"
  then show "run (c, p) (map (\<lambda>(now, b). CallRead now (Some b) 0) tbs) =
           Some ((c\<lparr>rxDataPending := drop k (rxDataPending c)\<rparr>, p), take k (rxDataPending c))"
    using run_reads_pending [of c tbs p] by simp
qed

lemma reads_in_order_example:
  "run (WithDeadlines hello_inner) [Pump, CallRead 0 (Some ''_____'') 0] =
     Some ((hello_offered\<lparr>rxData := Idle, rxDataPending := '' world''\<rparr>, Sending (Some EOF)),
           ''hello'') \<and>
   ''hello'' @ undelivered (hello_offered\<lparr>rxData := Idle, rxDataPending := '' world''\<rparr>) =
     ''hello world'' \<and>
   Read hello_offered 0 (Some ''_____'') =
     [(hello_offered\<lparr>rxData := Idle, rxDataPending := '' world''\<rparr>, Some ''hello'', 5, None)] \<and>
   run (hello_offered, Sending (Some EOF))
       [CallRead 0 (Some ''_____'') 0, CallRead 1 (Some ''_____'') 0, CallRead 2 (Some ''_'') 0] =
     Some ((hello_offered\<lparr>rxData := Idle, rxDataPending := []\<rparr>, Sending (Some EOF)),
           ''hello world'') \<and>
   run (hello_offered\<lparr>rxData := Idle, rxDataPending := '' world''\<rparr>, Sending (Some EOF))
       [CallRead 1 (Some ''_____'') 0, CallRead 2 (Some ''_'') 0] =
     Some ((hello_offered\<lparr>rxData := Idle, rxDataPending := []\<rparr>, Sending (Some EOF)), '' world'')"
  using reads_in_order [of hello_inner "[Pump, CallRead 0 (Some ''_____'') 0]"
      "hello_offered\<lparr>rxData := Idle, rxDataPending := '' world''\<rparr>" "Sending (Some EOF)"
      "''hello''" 1 "''hello world''" "''_____''" "[(1, ''_____''), (2, ''_'')]" 6]
    reads_in_order [of hello_inner "[Pump]" hello_offered "Sending (Some EOF)" "[]"
      0 "''hello world''" "''_____''" "[(0, ''_____''), (1, ''_____''), (2, ''_'')]" 11]
  by (simp add: hello_offered_def ex_defs read_defs)

text \<open>
  Claim C1. For every byte sequence produced by the underlying stream, repeated
  calls to Read with buffers of any size return that exact byte sequence exactly
  once and in order; the remainder of a chunk larger than the buffer is stashed in
  the pending buffer and returned by the next Reads until it is exhausted.

  conn.go loses the end of the stream. The stream produces \<open>hello world\<close>
  and ends, either with \<^verbatim>\<open>io.EOF\<close> on the same read or on the next one. The
  caller reads five bytes and gets \<open>hello\<close>; the remainder goes to the
  pending buffer, as the comment at lines 118 to 120 says, to be read on the next
  Read. The pump sees the error, returns, and its deferred \<^verbatim>\<open>c.Close()\<close> (line
  57) cancels the context. Every later Read takes the \<^verbatim>\<open>ctx.Done()\<close> case of
  line 89 before the pending check of line 96 and returns end-of-stream: the six
  bytes in the pending buffer are never returned.
\<close>

theorem Read_tail_lost:
  "concat (map fst (read_results hello_inner)) = ''hello world'' \<and>
   run (WithDeadlines hello_inner)
       [Pump, CallRead 0 (Some ''_____'') 0, Pump,
        CallRead 0 (Some ''_____'') 0, CallRead 0 (Some ''_'') 0] =
     Some ((hello_conn\<lparr>inner := (inner hello_conn)\<lparr>read_results := [], close_calls := 1\<rparr>,
                       ctx_done := True, rxData := ChanClosed, rxDataPending := '' world''\<rparr>,
            Returned), ''hello'') \<and>
   Read (hello_conn\<lparr>inner := (inner hello_conn)\<lparr>read_results := [], close_calls := 1\<rparr>,
                    ctx_done := True, rxData := ChanClosed, rxDataPending := '' world''\<rparr>)
        0 (Some ''_____'') =
     [(hello_conn\<lparr>inner := (inner hello_conn)\<lparr>read_results := [], close_calls := 1\<rparr>,
                   ctx_done := True, rxData := ChanClosed, rxDataPending := '' world''\<rparr>,
       Some ''_____'', 0, Some EOF)] \<and>
   concat (map fst (read_results hello_then_eof_inner)) = ''hello world'' \<and>
   run (WithDeadlines hello_then_eof_inner)
       [Pump, CallRead 0 (Some ''_____'') 0, Pump, Pump,
        CallRead 0 (Some ''_____'') 0, CallRead 0 (Some ''_'') 0] =
     Some ((hello_conn\<lparr>inner := (inner hello_conn)\<lparr>read_results := [], close_calls := 1\<rparr>,
                       ctx_done := True, rxData := ChanClosed, rxDataPending := '' world''\<rparr>,
            Returned), ''hello'')"
  by (simp add: hello_then_eof_inner_def ex_defs read_defs)

section \<open>Read with a nil buffer\<close>

text \<open>
  Claim C10. A call to Read with a nil buffer returns (0, nil) and changes nothing,
  whatever the state: the nil check comes before every signal check. In a state
  where the connection is closed or the read deadline has expired, a Read with a
  non-nil buffer does return, and returns end-of-stream or deadline-exceeded.
\<close>

theorem Read_nil_unconditional:
  "Read c now None = [(c, None, 0, None)] \<and>
   (ctx_done c \<or> deadline_Done (rxDeadline c) now \<longrightarrow>
      Read c now (Some b) \<noteq> [] \<and>
      (\<forall>r \<in> set (Read c now (Some b)).
         r = (c, Some b, 0, Some EOF) \<or> r = (c, Some b, 0, Some ErrDeadlineExceeded)))"
  by (auto simp: Read_def Read_poll_def select_default_def select_ready_def)

theorem Read_nil_unconditional_witness:
  "Read (hello_conn\<lparr>ctx_done := True\<rparr>) 3 None = [(hello_conn\<lparr>ctx_done := True\<rparr>, None, 0, None)] \<and>
   ctx_done (hello_conn\<lparr>ctx_done := True\<rparr>) \<and>
   Read (hello_conn\<lparr>ctx_done := True\<rparr>) 3 (Some ''__'') =
     [(hello_conn\<lparr>ctx_done := True\<rparr>, Some ''__'', 0, Some EOF)] \<and>
   Read (hello_conn\<lparr>rxDeadline := \<lparr>expiry = 2\<rparr>\<rparr>) 3 None =
     [(hello_conn\<lparr>rxDeadline := \<lparr>expiry = 2\<rparr>\<rparr>, None, 0, None)] \<and>
   deadline_Done (rxDeadline (hello_conn\<lparr>rxDeadline := \<lparr>expiry = 2\<rparr>\<rparr>)) 3 \<and>
   Read (hello_conn\<lparr>rxDeadline := \<lparr>expiry = 2\<rparr>\<rparr>) 3 (Some ''__'') =
     [(hello_conn\<lparr>rxDeadline := \<lparr>expiry = 2\<rparr>\<rparr>, Some ''__'', 0, Some ErrDeadlineExceeded)]"
  using Read_nil_unconditional [of "hello_conn\<lparr>ctx_done := True\<rparr>" 3 "''__''"]
    Read_nil_unconditional [of "hello_conn\<lparr>rxDeadline := \<lparr>expiry = 2\<rparr>\<rparr>" 3 "''__''"]
  by (simp add: ex_defs read_defs)

section \<open>The pending buffer\<close>

text \<open>
  Claim C2, amended. For every call to Read with a non-nil buffer while the pending
  buffer is non-empty and neither the cancellation signal nor the read-deadline
  signal is set, Read copies as many pending bytes as fit into the buffer, shrinks
  the pending buffer by exactly that amount and returns the copied count with no
  error; it has this one result, so it does not block, and it leaves the handoff
  queue as it was. With a non-empty buffer the count is positive.
\<close>

theorem Read_drains_pending_first:
  "\<not> ctx_done c \<and> \<not> deadline_Done (rxDeadline c) now \<and> rxDataPending c \<noteq> [] \<and>
   n = min (length b) (length (rxDataPending c)) \<longrightarrow>
     Read c now (Some b) =
       [(c\<lparr>rxDataPending := drop n (rxDataPending c)\<rparr>,
         Some (take n (rxDataPending c) @ drop n b), n, None)] \<and>
     length (drop n (rxDataPending c)) = length (rxDataPending c) - n \<and>
     (b \<noteq> [] \<longrightarrow> 0 < n)"
  using Read_pending [of c now b] by (cases b) auto

theorem Read_drains_pending_first_witness:
  "\<not> ctx_done (hello_conn\<lparr>rxDataPending := '' world''\<rparr>) \<and>
   \<not> deadline_Done (rxDeadline (hello_conn\<lparr>rxDataPending := '' world''\<rparr>)) 7 \<and>
   Read (hello_conn\<lparr>rxDataPending := '' world''\<rparr>) 7 (Some ''____'') =
     [(hello_conn\<lparr>rxDataPending := ''ld''\<rparr>, Some '' wor'', 4, None)] \<and>
   Read (hello_conn\<lparr>rxDataPending := '' world'', rxData := Offered ''again''\<rparr>) 7 (Some ''________'') =
     [(hello_conn\<lparr>rxDataPending := [], rxData := Offered ''again''\<rparr>, Some '' world__'', 6, None)]"
  using Read_drains_pending_first [of "hello_conn\<lparr>rxDataPending := '' world''\<rparr>" 7 4 "''____''"]
    Read_drains_pending_first [of "hello_conn\<lparr>rxDataPending := '' world'', rxData := Offered ''again''\<rparr>"
      7 6 "''________''"]
  by (simp add: ex_defs)

text \<open>
  The claim as written holds regardless of the signals. The first select of Read
  looks at the signals first: with pending bytes and the connection closed, Read
  returns end-of-stream, and with pending bytes and the read deadline expired, it
  returns deadline-exceeded; the pending buffer stays as it was.
\<close>

theorem Read_signal_before_pending_counterexample:
  "rxDataPending (hello_conn\<lparr>ctx_done := True, rxDataPending := '' world''\<rparr>) \<noteq> [] \<and>
   Read (hello_conn\<lparr>ctx_done := True, rxDataPending := '' world''\<rparr>) 0 (Some ''_____'') =
     [(hello_conn\<lparr>ctx_done := True, rxDataPending := '' world''\<rparr>, Some ''_____'', 0, Some EOF)] \<and>
   Read (hello_conn\<lparr>rxDeadline := \<lparr>expiry = 2\<rparr>, rxDataPending := '' world''\<rparr>) 3 (Some ''_____'') =
     [(hello_conn\<lparr>rxDeadline := \<lparr>expiry = 2\<rparr>, rxDataPending := '' world''\<rparr>, Some ''_____'', 0,
       Some ErrDeadlineExceeded)]"
  by (simp add: ex_defs read_defs)

section \<open>The deadline setters\<close>

text \<open>
  Claim C4. For every time value t, SetReadDeadline(t) and SetWriteDeadline(t) on
  a closed connection (and so after Close) return the closed-connection error and
  leave the connection, its deadlines included, as it was; on a connection that is
  not closed each hands t to the Set of its own deadline and returns no error.
\<close>

theorem SetDeadline_closed_or_forward:
  "(ctx_done c \<longrightarrow>
      SetReadDeadline c t = (c, Some ErrClosed) \<and> SetWriteDeadline c t = (c, Some ErrClosed)) \<and>
   (\<not> ctx_done c \<longrightarrow>
      SetReadDeadline c t = (c\<lparr>rxDeadline := deadline_Set t (rxDeadline c)\<rparr>, None) \<and>
      SetWriteDeadline c t = (c\<lparr>txDeadline := deadline_Set t (txDeadline c)\<rparr>, None)) \<and>
   SetReadDeadline (fst (Close c)) t = (fst (Close c), Some ErrClosed) \<and>
   SetWriteDeadline (fst (Close c)) t = (fst (Close c), Some ErrClosed)"
  by (simp add: SetReadDeadline_def SetWriteDeadline_def Close_def Let_def)

theorem SetDeadline_closed_or_forward_witness:
  "ctx_done (hello_conn\<lparr>ctx_done := True\<rparr>) \<and>
   SetReadDeadline (hello_conn\<lparr>ctx_done := True\<rparr>) 9 = (hello_conn\<lparr>ctx_done := True\<rparr>, Some ErrClosed) \<and>
   SetWriteDeadline (hello_conn\<lparr>ctx_done := True\<rparr>) 9 = (hello_conn\<lparr>ctx_done := True\<rparr>, Some ErrClosed) \<and>
   \<not> ctx_done hello_conn \<and>
   SetReadDeadline hello_conn 9 = (hello_conn\<lparr>rxDeadline := \<lparr>expiry = 9\<rparr>\<rparr>, None) \<and>
   SetWriteDeadline hello_conn 9 = (hello_conn\<lparr>txDeadline := \<lparr>expiry = 9\<rparr>\<rparr>, None)"
  using SetDeadline_closed_or_forward [of "hello_conn\<lparr>ctx_done := True\<rparr>" 9]
    SetDeadline_closed_or_forward [of hello_conn 9]
  by (simp add: ex_defs deadline_Set_def)

text \<open>
  Claim C6. For every time value t, SetDeadline(t) is SetReadDeadline(t) followed
  by SetWriteDeadline(t), stopping at the first failure: if SetReadDeadline
  returns an error, SetDeadline returns that error and the write deadline is as it
  was; otherwise SetDeadline returns what SetWriteDeadline(t) returns. Written
  out: the closed-connection error on a closed connection, both deadlines set and
  no error otherwise.
\<close>

theorem SetDeadline_read_then_write:
  "(\<forall>c1 err. SetReadDeadline c t = (c1, Some err) \<longrightarrow>
      SetDeadline c t = (c1, Some err) \<and> txDeadline c1 = txDeadline c) \<and>
   (\<forall>c1. SetReadDeadline c t = (c1, None) \<longrightarrow> SetDeadline c t = SetWriteDeadline c1 t) \<and>
   SetDeadline c t =
     (if ctx_done c then (c, Some ErrClosed)
      else (c\<lparr>rxDeadline := deadline_Set t (rxDeadline c),
              txDeadline := deadline_Set t (txDeadline c)\<rparr>, None))"
  by (auto simp: SetDeadline_def SetReadDeadline_def SetWriteDeadline_def split: if_splits)

theorem SetDeadline_read_then_write_witness:
  "SetReadDeadline (hello_conn\<lparr>ctx_done := True\<rparr>) 9 = (hello_conn\<lparr>ctx_done := True\<rparr>, Some ErrClosed) \<and>
   SetDeadline (hello_conn\<lparr>ctx_done := True\<rparr>) 9 = (hello_conn\<lparr>ctx_done := True\<rparr>, Some ErrClosed) \<and>
   SetReadDeadline hello_conn 9 = (hello_conn\<lparr>rxDeadline := \<lparr>expiry = 9\<rparr>\<rparr>, None) \<and>
   SetDeadline hello_conn 9 = SetWriteDeadline (hello_conn\<lparr>rxDeadline := \<lparr>expiry = 9\<rparr>\<rparr>) 9 \<and>
   SetDeadline hello_conn 9 =
     (hello_conn\<lparr>rxDeadline := \<lparr>expiry = 9\<rparr>, txDeadline := \<lparr>expiry = 9\<rparr>\<rparr>, None)"
  using SetDeadline_read_then_write [of "hello_conn\<lparr>ctx_done := True\<rparr>" 9]
    SetDeadline_read_then_write [of hello_conn 9]
  by (simp add: ex_defs deadline_Set_def SetReadDeadline_def SetWriteDeadline_def SetDeadline_def)

section \<open>The write deadline\<close>

text \<open>
  Claim C5, amended. For every Write call with a non-nil buffer on a connection
  whose cancellation signal is not set: if, when the select of Write looks, the
  write-deadline signal has fired and the underlying write has not completed,
  Write returns zero bytes and an error for which
  \<^verbatim>\<open>errors.Is(err, os.ErrDeadlineExceeded)\<close> holds; if the underlying write has
  completed and the write-deadline signal has not fired, Write returns the pair
  (bytesWritten, error) of the underlying write as it is. If both have happened
  Write returns either of the two, and if neither has, it stays blocked. On a
  connection whose cancellation signal is set, zero bytes and end-of-stream is
  among the results of Write in every case.
\<close>

theorem Write_deadline_or_result:
  "(\<not> ctx_done c \<longrightarrow>
     (deadline_Done (txDeadline c) now \<longrightarrow>
        (\<exists>err. Write c now (Some b) None =
                 [(c\<lparr>inner := (inner c)\<lparr>write_calls := write_calls (inner c) @ [b]\<rparr>\<rparr>, 0, Some err)] \<and>
               errors_Is err ErrDeadlineExceeded) \<and>
        Write c now (Some b) (Some (n, res_err)) =
          [(c\<lparr>inner := (inner c)\<lparr>write_calls := write_calls (inner c) @ [b]\<rparr>\<rparr>, 0,
            Some ErrDeadlineExceeded),
           (c\<lparr>inner := (inner c)\<lparr>write_calls := write_calls (inner c) @ [b]\<rparr>\<rparr>, n, res_err)]) \<and>
     (\<not> deadline_Done (txDeadline c) now \<longrightarrow>
        Write c now (Some b) (Some (n, res_err)) =
          [(c\<lparr>inner := (inner c)\<lparr>write_calls := write_calls (inner c) @ [b]\<rparr>\<rparr>, n, res_err)] \<and>
        Write c now (Some b) None = [])) \<and>
   (ctx_done c \<longrightarrow>
      (c\<lparr>inner := (inner c)\<lparr>write_calls := write_calls (inner c) @ [b]\<rparr>\<rparr>, 0, Some EOF)
        \<in> set (Write c now (Some b) res))"
  by (simp add: write_defs errors_Is_def Let_def)

theorem Write_deadline_or_result_witness:
  "\<not> ctx_done (hello_conn\<lparr>txDeadline := \<lparr>expiry = 2\<rparr>\<rparr>) \<and>
   deadline_Done (txDeadline (hello_conn\<lparr>txDeadline := \<lparr>expiry = 2\<rparr>\<rparr>)) 3 \<and>
   Write (hello_conn\<lparr>txDeadline := \<lparr>expiry = 2\<rparr>\<rparr>) 3 (Some ''hi'') None =
     [(hello_conn\<lparr>txDeadline := \<lparr>expiry = 2\<rparr>,
                  inner := (inner hello_conn)\<lparr>write_calls := [''hi'']\<rparr>\<rparr>, 0, Some ErrDeadlineExceeded)] \<and>
   errors_Is ErrDeadlineExceeded ErrDeadlineExceeded \<and>
   \<not> deadline_Done (txDeadline (hello_conn\<lparr>txDeadline := \<lparr>expiry = 2\<rparr>\<rparr>)) 1 \<and>
   Write (hello_conn\<lparr>txDeadline := \<lparr>expiry = 2\<rparr>\<rparr>) 1 (Some ''hi'')
         (Some (1, Some (TransportError ''broken pipe''))) =
     [(hello_conn\<lparr>txDeadline := \<lparr>expiry = 2\<rparr>,
                  inner := (inner hello_conn)\<lparr>write_calls := [''hi'']\<rparr>\<rparr>, 1,
       Some (TransportError ''broken pipe''))]"
  using Write_deadline_or_result [of "hello_conn\<lparr>txDeadline := \<lparr>expiry = 2\<rparr>\<rparr>" 3 "''hi''"]
    Write_deadline_or_result [of "hello_conn\<lparr>txDeadline := \<lparr>expiry = 2\<rparr>\<rparr>" 1 "''hi''" 1
      "Some (TransportError ''broken pipe'')"]
  by (simp add: ex_defs write_defs errors_Is_def Let_def)

text \<open>
  The claim as written speaks of every Write call. On a closed connection the
  select of Write has the cancellation case ready as well and may pick it: with
  the write deadline expired and the write in flight, and also with the write
  completed, Write may return zero bytes and end-of-stream.
\<close>

theorem Write_closed_counterexample:
  "deadline_Done (txDeadline (hello_conn\<lparr>ctx_done := True, txDeadline := \<lparr>expiry = 2\<rparr>\<rparr>)) 3 \<and>
   Write (hello_conn\<lparr>ctx_done := True, txDeadline := \<lparr>expiry = 2\<rparr>\<rparr>) 3 (Some ''hi'') None =
     [(hello_conn\<lparr>ctx_done := True, txDeadline := \<lparr>expiry = 2\<rparr>,
                  inner := (inner hello_conn)\<lparr>write_calls := [''hi'']\<rparr>\<rparr>, 0, Some EOF),
      (hello_conn\<lparr>ctx_done := True, txDeadline := \<lparr>expiry = 2\<rparr>,
                  inner := (inner hello_conn)\<lparr>write_calls := [''hi'']\<rparr>\<rparr>, 0, Some ErrDeadlineExceeded)] \<and>
   \<not> errors_Is EOF ErrDeadlineExceeded \<and>
   Write (hello_conn\<lparr>ctx_done := True\<rparr>) 3 (Some ''hi'') (Some (2, None)) =
     [(hello_conn\<lparr>ctx_done := True, inner := (inner hello_conn)\<lparr>write_calls := [''hi'']\<rparr>\<rparr>, 0, Some EOF),
      (hello_conn\<lparr>ctx_done := True, inner := (inner hello_conn)\<lparr>write_calls := [''hi'']\<rparr>\<rparr>, 2, None)]"
  by (simp add: ex_defs write_defs errors_Is_def Let_def)

section \<open>Nil and empty buffers\<close>

text \<open>
  Claim C7, amended. A call to Read with a nil destination buffer, and a call to
  Write with a nil source buffer, each return zero bytes and no error, as their
  one result (so without blocking), and leave the connection as it was: the
  underlying stream, the handoff queue and the pending buffer are untouched.
\<close>

theorem nil_buffer_noop:
  "Read c now None = [(c, None, 0, None)] \<and> Write c now None res = [(c, 0, None)]"
  by (simp add: Read_def Write_def)

text \<open>
  The claim as written includes empty buffers that are not nil. conn.go tests
  \<^verbatim>\<open>b == nil\<close> only, so such a buffer takes the path of any other: Read returns
  end-of-stream on a closed connection, blocks when nothing is offered, and when a
  chunk is offered takes it from the queue and puts it in the pending buffer;
  Write returns end-of-stream on a closed connection, blocks while the underlying
  write is in flight, and hands the empty buffer to the underlying Write.
\<close>

theorem empty_buffer_counterexample:
  "Read (hello_conn\<lparr>ctx_done := True\<rparr>) 0 (Some []) = [(hello_conn\<lparr>ctx_done := True\<rparr>, Some [], 0, Some EOF)] \<and>
   Read hello_conn 0 (Some []) = [] \<and>
   Read (hello_conn\<lparr>rxData := Offered ''hello world''\<rparr>) 0 (Some []) =
     [(hello_conn\<lparr>rxData := Idle, rxDataPending := ''hello world''\<rparr>, Some [], 0, None)] \<and>
   Write (hello_conn\<lparr>ctx_done := True\<rparr>) 0 (Some []) None =
     [(hello_conn\<lparr>ctx_done := True, inner := (inner hello_conn)\<lparr>write_calls := [[]]\<rparr>\<rparr>, 0, Some EOF)] \<and>
   Write hello_conn 0 (Some []) None = [] \<and>
   Write hello_conn 0 (Some []) (Some (0, None)) =
     [(hello_conn\<lparr>inner := (inner hello_conn)\<lparr>write_calls := [[]]\<rparr>\<rparr>, 0, None)]"
  by (simp add: ex_defs read_defs Write_def Let_def)

section \<open>After Close\<close>

text \<open>
  Claim C8, amended. Once the cancellation signal is set (as it is after Close),
  every Read with a non-nil buffer returns zero bytes and an error, and leaves the
  connection and the buffer as they were: the error is end-of-stream when the read
  deadline has not expired, and either end-of-stream or deadline-exceeded when it
  has. Bytes left in the pending buffer are never delivered: in every execution
  from such a state no Read returns a byte and the pending buffer stays as it was.
\<close>

theorem Read_after_close_drops_pending:
  "ctx_done (fst (Close c0)) \<and>
   (ctx_done c \<longrightarrow>
      Read c now (Some b) =
        (if deadline_Done (rxDeadline c) now
         then [(c, Some b, 0, Some EOF), (c, Some b, 0, Some ErrDeadlineExceeded)]
         else [(c, Some b, 0, Some EOF)]) \<and>
      (rxDataPending c \<noteq> [] \<and> run (c, p) acts = Some ((c', p'), out) \<longrightarrow>
         out = [] \<and> rxDataPending c' = rxDataPending c \<and> ctx_done c'))"
  using Read_closed_results [of c now b] run_closed [of c p acts c' p' out]
  by (simp add: Close_def Let_def)

theorem Read_after_close_drops_pending_witness:
  "ctx_done (hello_conn\<lparr>ctx_done := True, rxDataPending := '' world''\<rparr>) \<and>
   \<not> deadline_Done (rxDeadline (hello_conn\<lparr>ctx_done := True, rxDataPending := '' world''\<rparr>)) 4 \<and>
   Read (hello_conn\<lparr>ctx_done := True, rxDataPending := '' world''\<rparr>) 4 (Some ''_____'') =
     [(hello_conn\<lparr>ctx_done := True, rxDataPending := '' world''\<rparr>, Some ''_____'', 0, Some EOF)] \<and>
   run (hello_conn\<lparr>ctx_done := True, rxDataPending := '' world''\<rparr>, AtSelect)
       [CallRead 4 (Some ''_____'') 0, Pump, CallRead 5 (Some ''_'') 0, CallRead 6 None 0] =
     Some ((hello_conn\<lparr>inner := (inner hello_conn)\<lparr>close_calls := 1\<rparr>, ctx_done := True,
                       rxData := ChanClosed, rxDataPending := '' world''\<rparr>, Returned), [])"
  using Read_after_close_drops_pending [of hello_conn
      "hello_conn\<lparr>ctx_done := True, rxDataPending := '' world''\<rparr>" 4 "''_____''" AtSelect
      "[CallRead 4 (Some ''_____'') 0, Pump, CallRead 5 (Some ''_'') 0, CallRead 6 None 0]"
      "hello_conn\<lparr>inner := (inner hello_conn)\<lparr>close_calls := 1\<rparr>, ctx_done := True,
                       rxData := ChanClosed, rxDataPending := '' world''\<rparr>" Returned "[]"]
  by (simp add: ex_defs read_defs)

text \<open>
  The claim as written has end-of-stream as the only result. After five bytes
  were read, a read deadline set and the connection closed, a Read at an instant
  past the deadline has two cases of its first select ready, and may return
  deadline-exceeded.
\<close>

theorem Read_after_close_deadline_counterexample:
  "run (WithDeadlines hello_inner)
       [Pump, CallRead 0 (Some ''_____'') 0, CallSetReadDeadline 2, CallClose] =
     Some ((hello_conn\<lparr>inner := (inner hello_conn)\<lparr>read_results := [], close_calls := 1\<rparr>,
                       ctx_done := True, rxDataPending := '' world'',
                       rxDeadline := \<lparr>expiry = 2\<rparr>\<rparr>, Sending (Some EOF)), ''hello'') \<and>
   Read (hello_conn\<lparr>inner := (inner hello_conn)\<lparr>read_results := [], close_calls := 1\<rparr>,
                    ctx_done := True, rxDataPending := '' world'',
                    rxDeadline := \<lparr>expiry = 2\<rparr>\<rparr>) 3 (Some ''_____'') =
     [(hello_conn\<lparr>inner := (inner hello_conn)\<lparr>read_results := [], close_calls := 1\<rparr>,
                   ctx_done := True, rxDataPending := '' world'',
                   rxDeadline := \<lparr>expiry = 2\<rparr>\<rparr>, Some ''_____'', 0, Some EOF),
      (hello_conn\<lparr>inner := (inner hello_conn)\<lparr>read_results := [], close_calls := 1\<rparr>,
                   ctx_done := True, rxDataPending := '' world'',
                   rxDeadline := \<lparr>expiry = 2\<rparr>\<rparr>, Some ''_____'', 0, Some ErrDeadlineExceeded)]"
  by (simp add: ex_defs read_defs SetReadDeadline_def deadline_Set_def)

section \<open>The pump and the end of the stream\<close>

text \<open>
  Claim C3, amended. When a read made by the pump reports an error with no bytes,
  the pump returns at once: it leaves its loop for good and runs the close
  routine, which closes the underlying stream, sets the cancellation signal and
  closes the handoff queue. When the read reports an error together with bytes,
  the pump publishes the chunk and stays blocked in that send for as long as no
  Read receives the chunk; once it has been received the pump returns and runs the
  close routine in the same way. A pump that finds the cancellation signal set at
  its select returns and runs the close routine as well. No Read returns the
  pump's error: the error of a Read is none, end-of-stream or deadline-exceeded.
  A Read with a nil buffer returns zero bytes and no error. After closure, by the
  pump or by Close, every Read with a non-nil buffer, and every Read woken in its
  second select while no chunk is offered, returns with zero bytes and
  end-of-stream or, when the read deadline has expired as well, possibly
  deadline-exceeded.
\<close>

theorem pump_error_closes_Read_EOF:
  "(\<not> ctx_done c \<and> read_results (inner c) = ([], Some e) # rest \<longrightarrow>
      pump_step (c, AtSelect) = Some (pump_return (c\<lparr>inner := (inner c)\<lparr>read_results := rest\<rparr>\<rparr>))) \<and>
   (\<not> ctx_done c \<and> read_results (inner c) = (data, Some e) # rest \<and> data \<noteq> [] \<longrightarrow>
      pump_step (c, AtSelect) =
        Some (c\<lparr>inner := (inner c)\<lparr>read_results := rest\<rparr>, rxData := Offered data\<rparr>, Sending (Some e))) \<and>
   ((\<forall>d. rxData c \<noteq> Offered d) \<longrightarrow> pump_step (c, Sending (Some e)) = Some (pump_return c)) \<and>
   (\<forall>c' p'. pump_return c = (c', p') \<longrightarrow>
      p' = Returned \<and> pump_step (c', p') = None \<and> ctx_done c' \<and> rxData c' = ChanClosed \<and>
      close_calls (inner c') = Suc (close_calls (inner c))) \<and>
   (\<forall>r \<in> set (Read c now bo) \<union> set (Read_wait c now b).
      snd (snd (snd r)) \<in> {None, Some EOF, Some ErrDeadlineExceeded}) \<and>
   Read c now None = [(c, None, 0, None)] \<and>
   (ctx_done c \<longrightarrow>
      Read c now (Some b) \<noteq> [] \<and>
      (\<forall>r \<in> set (Read c now (Some b)).
         r = (c, Some b, 0, Some EOF) \<or>
         (deadline_Done (rxDeadline c) now \<and> r = (c, Some b, 0, Some ErrDeadlineExceeded)))) \<and>
   (ctx_done c \<and> (\<forall>d. rxData c \<noteq> Offered d) \<longrightarrow>
      Read_wait c now b \<noteq> [] \<and>
      (\<forall>r \<in> set (Read_wait c now b).
         r = (c, Some b, 0, Some EOF) \<or>
         (deadline_Done (rxDeadline c) now \<and> r = (c, Some b, 0, Some ErrDeadlineExceeded)))) \<and>
   (rxData c = Offered chunk \<longrightarrow> pump_step (c, Sending err) = None) \<and>
   (ctx_done c \<longrightarrow> pump_step (c, AtSelect) = Some (pump_return c))"
proof (intro conjI impI allI ballI)
  show "Read c now None = [(c, None, 0, None)]" by (simp add: Read_def)
next
  fix r assume "r \<in> set (Read c now bo) \<union> set (Read_wait c now b)"
  then show "snd (snd (snd r)) \<in> {None, Some EOF, Some ErrDeadlineExceeded}"
    using Read_errors [of r c now bo] Read_wait_errors [of r c now b] by blast
next
  fix r assume "ctx_done c" "r \<in> set (Read c now (Some b))"
  then show "r = (c, Some b, 0, Some EOF) \<or>
      (deadline_Done (rxDeadline c) now \<and> r = (c, Some b, 0, Some ErrDeadlineExceeded))"
    by (rule Read_closed)
next
  fix r assume "ctx_done c \<and> (\<forall>d. rxData c \<noteq> Offered d)" "r \<in> set (Read_wait c now b)"
  then show "r = (c, Some b, 0, Some EOF) \<or>
      (deadline_Done (rxDeadline c) now \<and> r = (c, Some b, 0, Some ErrDeadlineExceeded))"
    using Read_wait_closed [of c r now b] by blast
qed (auto simp: Read_closed_returns Read_wait_closed_returns dest: pump_return_closed
      split: chan.splits)

theorem pump_error_closes_Read_EOF_witness:
  "pump_step (reset_conn, AtSelect) =
     Some (reset_conn\<lparr>inner := (inner reset_conn)\<lparr>read_results := [], close_calls := 1\<rparr>,
                     ctx_done := True, rxData := ChanClosed\<rparr>, Returned) \<and>
   pump_step (hello_conn, AtSelect) = Some (hello_offered, Sending (Some EOF)) \<and>
   rxData hello_offered = Offered ''hello world'' \<and>
   pump_step (hello_offered, Sending (Some EOF)) = None \<and>
   pump_step (hello_offered\<lparr>rxData := Idle, rxDataPending := '' world''\<rparr>, Sending (Some EOF)) =
     Some (hello_offered\<lparr>inner := (inner hello_offered)\<lparr>close_calls := 1\<rparr>, ctx_done := True,
                        rxData := ChanClosed, rxDataPending := '' world''\<rparr>, Returned) \<and>
   pump_step (hello_conn\<lparr>ctx_done := True\<rparr>, AtSelect) =
     Some (hello_conn\<lparr>inner := (inner hello_conn)\<lparr>close_calls := 1\<rparr>, ctx_done := True,
                     rxData := ChanClosed\<rparr>, Returned) \<and>
   Read (hello_conn\<lparr>ctx_done := True\<rparr>) 0 None = [(hello_conn\<lparr>ctx_done := True\<rparr>, None, 0, None)] \<and>
   Read (hello_conn\<lparr>ctx_done := True\<rparr>) 0 (Some ''__'') =
     [(hello_conn\<lparr>ctx_done := True\<rparr>, Some ''__'', 0, Some EOF)] \<and>
   Read_wait (hello_conn\<lparr>ctx_done := True\<rparr>) 0 ''__'' =
     [(hello_conn\<lparr>ctx_done := True\<rparr>, Some ''__'', 0, Some EOF)]"
proof -
  let ?closed = "hello_conn\<lparr>ctx_done := True\<rparr>"
  let ?taken = "hello_offered\<lparr>rxData := Idle, rxDataPending := '' world''\<rparr>"
  note c2 = conjunct2
  have h1: "\<not> ctx_done reset_conn \<and>
      read_results (inner reset_conn) = ([], Some (TransportError ''connection reset'')) # []"
    by (simp add: ex2_defs WithDeadlines_def)
  have s1: "pump_step (reset_conn, AtSelect) =
      Some (pump_return (reset_conn\<lparr>inner := (inner reset_conn)\<lparr>read_results := []\<rparr>\<rparr>))"
    using pump_error_closes_Read_EOF [of reset_conn "TransportError ''connection reset''" "[]",
        THEN conjunct1] h1 by (rule mp)
  have h2: "\<not> ctx_done hello_conn \<and>
      read_results (inner hello_conn) = (''hello world'', Some EOF) # [] \<and> ''hello world'' \<noteq> []"
    by (simp add: ex_defs)
  have s2: "pump_step (hello_conn, AtSelect) =
      Some (hello_conn\<lparr>inner := (inner hello_conn)\<lparr>read_results := []\<rparr>,
                      rxData := Offered ''hello world''\<rparr>, Sending (Some EOF))"
    using pump_error_closes_Read_EOF [of hello_conn EOF "[]" "''hello world''",
        THEN c2, THEN conjunct1] h2 by (rule mp)
  have off: "rxData hello_offered = Offered ''hello world''"
    by (simp add: hello_offered_def)
  have s3: "pump_step (hello_offered, Sending (Some EOF)) = None"
    using pump_error_closes_Read_EOF [of hello_offered _ _ _ _ _ _ "''hello world''" "Some EOF",
        THEN c2, THEN c2, THEN c2, THEN c2, THEN c2, THEN c2, THEN c2, THEN c2, THEN conjunct1]
      off by (rule mp)
  have h4: "\<forall>d. rxData ?taken \<noteq> Offered d" by simp
  have s4: "pump_step (?taken, Sending (Some EOF)) = Some (pump_return ?taken)"
    using pump_error_closes_Read_EOF [of ?taken EOF, THEN c2, THEN c2, THEN conjunct1] h4
    by (rule mp)
  have h5: "ctx_done ?closed" by simp
  have s5: "pump_step (?closed, AtSelect) = Some (pump_return ?closed)"
    using pump_error_closes_Read_EOF [of ?closed,
        THEN c2, THEN c2, THEN c2, THEN c2, THEN c2, THEN c2, THEN c2, THEN c2, THEN c2] h5
    by (rule mp)
  have s6: "Read ?closed 0 None = [(?closed, None, 0, None)]"
    using pump_error_closes_Read_EOF [of ?closed _ _ _ 0,
        THEN c2, THEN c2, THEN c2, THEN c2, THEN c2, THEN conjunct1] .
  have s7: "Read ?closed 0 (Some ''__'') = [(?closed, Some ''__'', 0, Some EOF)]"
    by (simp add: ex_defs read_defs)
  have s8: "Read_wait ?closed 0 ''__'' = [(?closed, Some ''__'', 0, Some EOF)]"
    by (simp add: ex_defs read_defs)
  have r1: "pump_return (reset_conn\<lparr>inner := (inner reset_conn)\<lparr>read_results := []\<rparr>\<rparr>) =
      (reset_conn\<lparr>inner := (inner reset_conn)\<lparr>read_results := [], close_calls := 1\<rparr>,
                  ctx_done := True, rxData := ChanClosed\<rparr>, Returned)"
    by (simp add: ex_defs ex2_defs)
  have r4: "pump_return ?taken =
      (hello_offered\<lparr>inner := (inner hello_offered)\<lparr>close_calls := 1\<rparr>, ctx_done := True,
                     rxData := ChanClosed, rxDataPending := '' world''\<rparr>, Returned)"
    by (simp add: hello_offered_def ex_defs)
  have r5: "pump_return ?closed =
      (hello_conn\<lparr>inner := (inner hello_conn)\<lparr>close_calls := 1\<rparr>, ctx_done := True,
                  rxData := ChanClosed\<rparr>, Returned)"
    by (simp add: ex_defs)
  have o2: "hello_conn\<lparr>inner := (inner hello_conn)\<lparr>read_results := []\<rparr>,
                      rxData := Offered ''hello world''\<rparr> = hello_offered"
    by (simp add: hello_offered_def)
  show ?thesis
    using s1 s2 off s3 s4 s5 s6 s7 s8 by (simp only: r1 r4 r5 o2 simp_thms)
qed

text \<open>
  The claim as written has the pump close on every failed read, and every Read
  after closure return end-of-stream. A pump whose failed read brought bytes is
  blocked in the send of line 70, which has no cancellation case: while no Read
  receives the chunk it neither returns nor closes, also after an explicit Close.
  After the pump closed the connection on a failed read, a Read with a nil buffer
  returns no error, and, the read deadline having expired, a Read with a buffer
  may return deadline-exceeded.
\<close>

theorem Read_after_close_not_EOF_counterexample:
  "run (WithDeadlines hello_inner) [Pump] = Some ((hello_offered, Sending (Some EOF)), []) \<and>
   \<not> ctx_done hello_offered \<and>
   pump_step (hello_offered, Sending (Some EOF)) = None \<and>
   run (WithDeadlines hello_inner) [Pump, Pump] = None \<and>
   run (WithDeadlines hello_inner) [Pump, CallClose, Pump] = None \<and>
   run (WithDeadlines reset_inner) [CallSetReadDeadline 2, Pump] =
     Some ((reset_conn\<lparr>inner := (inner reset_conn)\<lparr>read_results := [], close_calls := 1\<rparr>,
                       ctx_done := True, rxData := ChanClosed, rxDeadline := \<lparr>expiry = 2\<rparr>\<rparr>,
            Returned), []) \<and>
   Read (reset_conn\<lparr>inner := (inner reset_conn)\<lparr>read_results := [], close_calls := 1\<rparr>,
                    ctx_done := True, rxData := ChanClosed, rxDeadline := \<lparr>expiry = 2\<rparr>\<rparr>) 3 None =
     [(reset_conn\<lparr>inner := (inner reset_conn)\<lparr>read_results := [], close_calls := 1\<rparr>,
                   ctx_done := True, rxData := ChanClosed, rxDeadline := \<lparr>expiry = 2\<rparr>\<rparr>,
       None, 0, None)] \<and>
   Read (reset_conn\<lparr>inner := (inner reset_conn)\<lparr>read_results := [], close_calls := 1\<rparr>,
                    ctx_done := True, rxData := ChanClosed, rxDeadline := \<lparr>expiry = 2\<rparr>\<rparr>) 3
        (Some ''__'') =
     [(reset_conn\<lparr>inner := (inner reset_conn)\<lparr>read_results := [], close_calls := 1\<rparr>,
                   ctx_done := True, rxData := ChanClosed, rxDeadline := \<lparr>expiry = 2\<rparr>\<rparr>,
       Some ''__'', 0, Some EOF),
      (reset_conn\<lparr>inner := (inner reset_conn)\<lparr>read_results := [], close_calls := 1\<rparr>,
                   ctx_done := True, rxData := ChanClosed, rxDeadline := \<lparr>expiry = 2\<rparr>\<rparr>,
       Some ''__'', 0, Some ErrDeadlineExceeded)]"
  by (simp add: hello_offered_def ex_defs ex2_defs read_defs SetReadDeadline_def deadline_Set_def)

section \<open>Published chunks\<close>

text \<open>
  Claim C9. A pump step that publishes a chunk publishes a non-empty one, the
  bytes of the read it just made. So in every execution from \<^verbatim>\<open>WithDeadlines\<close>
  an offered chunk is non-empty, a receive into a non-empty buffer returns at
  least one byte and no error, and no Read with a non-empty buffer, called or
  woken in its second select, returns (0, nil).
\<close>

theorem pump_publishes_nonempty:
  "(pump_step (c, p) = Some (c', p') \<and> rxData c' = Offered data \<and> rxData c \<noteq> Offered data \<longrightarrow>
      data \<noteq> [] \<and> (\<exists>err rest. read_results (inner c) = (data, err) # rest)) \<and>
   (run (WithDeadlines i) acts = Some ((c, p), out) \<longrightarrow>
      (\<forall>data. rxData c = Offered data \<longrightarrow>
         data \<noteq> [] \<and>
         (b \<noteq> [] \<longrightarrow> 0 < fst (snd (snd (Read_recv c b))) \<and> snd (snd (snd (Read_recv c b))) = None)) \<and>
      (b \<noteq> [] \<longrightarrow>
         (\<forall>r \<in> set (Read c now (Some b)) \<union> set (Read_wait c now b). snd (snd r) \<noteq> (0, None))))"
proof (intro conjI impI allI ballI)
  assume "pump_step (c, p) = Some (c', p') \<and> rxData c' = Offered data \<and> rxData c \<noteq> Offered data"
  then have *: "data \<noteq> [] \<and> (\<exists>err rest. read_results (inner c) = (data, err) # rest)"
    using pump_publishes [of c p c' p' data] by blast
  from * show "data \<noteq> []" ..
  from * show "\<exists>err rest. read_results (inner c) = (data, err) # rest" ..
next
  fix d assume r: "run (WithDeadlines i) acts = Some ((c, p), out)" and d: "rxData c = Offered d"
  have "sys_inv (WithDeadlines i)" by (simp add: WithDeadlines_def)
  from run_inv [OF r this] have inv: "sys_inv (c, p)" by simp
  from sys_inv_Offered [OF inv d] show ne: "d \<noteq> []" .
  { assume "b \<noteq> []"
    from Read_recv_positive [OF d ne this]
    show "0 < fst (snd (snd (Read_recv c b)))" "snd (snd (snd (Read_recv c b))) = None" by auto }
next
  fix r assume r: "run (WithDeadlines i) acts = Some ((c, p), out)" and b: "b \<noteq> []"
    and m: "r \<in> set (Read c now (Some b)) \<union> set (Read_wait c now b)"
  have "sys_inv (WithDeadlines i)" by (simp add: WithDeadlines_def)
  from run_inv [OF r this] have inv: "sys_inv (c, p)" by simp
  from Read_never_zero_nil [OF inv b m] show "snd (snd r) \<noteq> (0, None)" .
qed

theorem pump_publishes_nonempty_witness:
  "pump_step (hello_conn, AtSelect) = Some (hello_offered, Sending (Some EOF)) \<and>
   rxData hello_offered = Offered ''hello world'' \<and>
   rxData hello_conn \<noteq> Offered ''hello world'' \<and>
   ''hello world'' \<noteq> [] \<and>
   (\<exists>err rest. read_results (inner hello_conn) = (''hello world'', err) # rest) \<and>
   run (WithDeadlines hello_inner) [Pump] = Some ((hello_offered, Sending (Some EOF)), []) \<and>
   0 < fst (snd (snd (Read_recv hello_offered ''_''))) \<and>
   snd (snd (snd (Read_recv hello_offered ''_''))) = None \<and>
   Read hello_offered 0 (Some ''_'') =
     [(hello_offered\<lparr>rxData := Idle, rxDataPending := ''ello world''\<rparr>, Some ''h'', 1, None)]"
proof -
  have step: "pump_step (hello_conn, AtSelect) = Some (hello_offered, Sending (Some EOF))"
    by (simp add: hello_offered_def ex_defs)
  have off: "rxData hello_offered = Offered ''hello world''"
    by (simp add: hello_offered_def)
  have idle: "rxData hello_conn \<noteq> Offered ''hello world''"
    by (simp add: ex_defs)
  have run: "run (WithDeadlines hello_inner) [Pump] = Some ((hello_offered, Sending (Some EOF)), [])"
    using step by (simp add: hello_conn_def WithDeadlines_def)
  have rd: "Read hello_offered 0 (Some ''_'') =
     [(hello_offered\<lparr>rxData := Idle, rxDataPending := ''ello world''\<rparr>, Some ''h'', 1, None)]"
    by (simp add: hello_offered_def ex_defs read_defs)
  from pump_publishes_nonempty [of hello_conn AtSelect hello_offered "Sending (Some EOF)"
      "''hello world''" hello_inner "[]" "[]" "''_''" 0] step off idle
  have A: "''hello world'' \<noteq> [] \<and>
      (\<exists>err rest. read_results (inner hello_conn) = (''hello world'', err) # rest)"
    by blast
  from pump_publishes_nonempty [of hello_offered "Sending (Some EOF)" hello_offered
      "Sending (Some EOF)" "''hello world''" hello_inner "[Pump]" "[]" "''_''" 0] run off
  have B: "0 < fst (snd (snd (Read_recv hello_offered ''_''))) \<and>
      snd (snd (snd (Read_recv hello_offered ''_''))) = None"
    by blast
  from step off idle run rd A B show ?thesis by blast
qed

end
